theory Spec2Isabelle
  imports Main "HOL-Library.Word"
begin

unbundle bit_operations_syntax

section \<open>Streams, errors and the library primitives the codec calls\<close>

text \<open>
  The codec of \<^verbatim>\<open>wire/readwrite.go\<close> reads from an \<^verbatim>\<open>io.Reader\<close> and writes to an
  \<^verbatim>\<open>io.Writer\<close>. Both are modelled as in-memory byte buffers (Go's \<^verbatim>\<open>bytes.Buffer\<close>):
  a reader is the list of bytes not yet consumed, a writer is the list of bytes written so
  far. Every function takes the stream and returns the stream as it is afterwards.
\<close>

type_synonym byte = "8 word"
type_synonym Reader = "byte list"
type_synonym Writer = "byte list"

text \<open>
  Errors are values. \<open>EOF\<close> and \<open>ErrUnexpectedEOF\<close> are the two errors of package
  \<^verbatim>\<open>io\<close>; \<open>Errorf fmt args\<close> is \<^verbatim>\<open>fmt.Errorf(fmt, args...)\<close> with the format string
  and its numeric arguments kept apart; the remaining constructors are run-time panics.
\<close>

datatype error =
    EOF
  | ErrUnexpectedEOF
  | Errorf string "nat list"
  | PanicIndexOutOfRange
  | PanicMakeslice
  | PanicNilDereference

text \<open>
  \<^verbatim>\<open>r.Read(b)\<close> on a buffer, for a freshly made (all zero) \<open>b\<close> of length \<open>n\<close>: the
  result is the contents of \<open>b\<close> afterwards, the number of bytes read and the error.
  An empty buffer answers a non-empty request with \<^verbatim>\<open>(0, io.EOF)\<close>; otherwise the call
  copies as many bytes as it has, at most \<open>n\<close>, and reports no error.
\<close>

definition Read :: "Reader \<Rightarrow> nat \<Rightarrow> (byte list \<times> nat \<times> error option) \<times> Reader" where
  "Read r n =
     (if n = 0 then (([], 0, None), r)
      else if r = [] then ((replicate n 0, 0, Some EOF), r)
      else let i = min n (length r)
           in ((take i r @ replicate (n - i) 0, i, None), drop i r))"

text \<open>
  \<^verbatim>\<open>io.ReadFull(r, buf)\<close> with \<open>len(buf) = n\<close>: all \<open>n\<close> bytes, or \<^verbatim>\<open>io.EOF\<close> when
  nothing could be read, or \<^verbatim>\<open>io.ErrUnexpectedEOF\<close> when the buffer ran dry part way
  (the bytes it had are consumed).
\<close>

definition ReadFull :: "Reader \<Rightarrow> nat \<Rightarrow> (error + byte list) \<times> Reader" where
  "ReadFull r n =
     (if n \<le> length r then (Inr (take n r), drop n r)
      else if r = [] then (Inl EOF, r)
      else (Inl ErrUnexpectedEOF, []))"

text \<open>\<^verbatim>\<open>w.Write(p)\<close> on a buffer appends all of \<open>p\<close> and returns \<^verbatim>\<open>(len(p), nil)\<close>.\<close>

definition Write :: "Writer \<Rightarrow> byte list \<Rightarrow> (nat \<times> error option) \<times> Writer" where
  "Write w p = ((length p, None), w @ p)"

text \<open>
  \<^verbatim>\<open>binary.LittleEndian\<close>: \<open>Uint\<close> is \<^verbatim>\<open>b[0] | b[1]<<8 | ...\<close>, \<open>PutUint n\<close> writes
  the \<open>n\<close> low bytes of a value, least significant first.
\<close>

fun Uint :: "byte list \<Rightarrow> 'a::len word" where
  "Uint [] = 0"
| "Uint (b # bs) = ucast b OR push_bit 8 (Uint bs)"

fun PutUint :: "nat \<Rightarrow> 'a::len word \<Rightarrow> byte list" where
  "PutUint 0 v = []"
| "PutUint (Suc n) v = ucast v # PutUint n (drop_bit 8 v)"

text \<open>
  \<^verbatim>\<open>binary.Read(r, binary.LittleEndian, &data)\<close> for a fixed-size integer \<open>data\<close>: the
  size of the type decides how many bytes \<^verbatim>\<open>io.ReadFull\<close> is asked for; on an error
  \<open>data\<close> keeps the value it had. \<^verbatim>\<open>binary.Write\<close> is the inverse on a buffer.
\<close>

definition intDataSize :: "'a::len word \<Rightarrow> nat" where
  "intDataSize data = LENGTH('a) div 8"

definition binary_Read :: "Reader \<Rightarrow> 'a::len word \<Rightarrow> (error option \<times> 'a word) \<times> Reader" where
  "binary_Read r data =
     (case ReadFull r (intDataSize data) of
        (Inl err, r') \<Rightarrow> ((Some err, data), r')
      | (Inr bs, r') \<Rightarrow> ((None, Uint bs), r'))"

definition binary_Write :: "Writer \<Rightarrow> 'a::len word \<Rightarrow> error option \<times> Writer" where
  "binary_Write w data =
     (case Write w (PutUint (intDataSize data) data) of
        ((_, err), w') \<Rightarrow> (err, w'))"

section \<open>Variable-length integers\<close>

text \<open>
  \<^verbatim>\<open>ReadVarInt\<close>. The results of the two narrower payload reads (\<^verbatim>\<open>0xfe\<close>, \<^verbatim>\<open>0xfd\<close>)
  are not assigned to \<^verbatim>\<open>err\<close> in the source, so \<^verbatim>\<open>err\<close> is still the \<^verbatim>\<open>nil\<close> of the
  discriminant read when it is tested; only the \<^verbatim>\<open>0xff\<close> branch assigns it.
\<close>

definition ReadVarInt :: "Reader \<Rightarrow> error + (64 word \<times> Reader)" where
  "ReadVarInt r =
     (case binary_Read r (0 :: 8 word) of
        ((Some err, _), _) \<Rightarrow> Inl err
      | ((None, discriminant), r1) \<Rightarrow>
          if discriminant = 0xff then
            (case binary_Read r1 (0 :: 64 word) of
               ((Some err, _), _) \<Rightarrow> Inl err
             | ((None, rv), r2) \<Rightarrow>
                 if rv < 0x100000000
                 then Inl (Errorf ''Varint not canonically packed -- uint64'' [])
                 else Inr (rv, r2))
          else if discriminant = 0xfe then
            (case binary_Read r1 (0 :: 32 word) of
               ((_, sv), r2) \<Rightarrow>
                 let rv = (ucast sv :: 64 word)
                 in if rv < 0x10000
                    then Inl (Errorf ''Varint not canonically packed -- uint32'' [])
                    else Inr (rv, r2))
          else if discriminant = 0xfd then
            (case binary_Read r1 (0 :: 16 word) of
               ((_, sv), r2) \<Rightarrow>
                 let rv = (ucast sv :: 64 word)
                 in if rv < 0xfd
                    then Inl (Errorf ''Varint not canonically packed -- uint16'' [])
                    else Inr (rv, r2))
          else Inr (ucast discriminant, r1))"

definition WriteVarInt :: "Writer \<Rightarrow> 64 word \<Rightarrow> error option \<times> Writer" where
  "WriteVarInt w val =
     (if val < 0xfd then binary_Write w (ucast val :: 8 word)
      else if val \<le> 0xffff then
        (case binary_Write w (0xfd :: 8 word) of
           (Some err, w1) \<Rightarrow> (Some err, w1)
         | (None, w1) \<Rightarrow> binary_Write w1 (ucast val :: 16 word))
      else if val \<le> 0xffffffff then
        (case binary_Write w (0xfe :: 8 word) of
           (Some err, w1) \<Rightarrow> (Some err, w1)
         | (None, w1) \<Rightarrow> binary_Write w1 (ucast val :: 32 word))
      else
        (case binary_Write w (0xff :: 8 word) of
           (Some err, w1) \<Rightarrow> (Some err, w1)
         | (None, w1) \<Rightarrow> binary_Write w1 val))"

text \<open>
  The error kinds of the specification, read off the error values the code returns:
  a short read surfaces as one of the two \<^verbatim>\<open>io\<close> errors or as one of the
  "could not read" messages; a non-minimal VarInt as one of the three
  "not canonically packed" messages.
\<close>

definition TruncatedInput :: "error \<Rightarrow> bool" where
  "TruncatedInput e =
     (case e of
        EOF \<Rightarrow> True
      | ErrUnexpectedEOF \<Rightarrow> True
      | Errorf msg args \<Rightarrow>
          msg \<in> set [''Could not read all string bytes'',
                     ''Unable to read IP address'',
                     ''Couldn't read 32 bytes for big.int'',
                     ''Couldn't read 32 bytes for chainhash'',
                     ''Could not read pubkeyhash. Expected 20, got %d'',
                     ''Hashlink state not 32 bytes'',
                     ''Could not read abswork 16 bytes, read %d in stead'']
      | _ \<Rightarrow> False)"

definition NonCanonicalEncoding :: "error \<Rightarrow> bool" where
  "NonCanonicalEncoding e =
     (case e of
        Errorf msg args \<Rightarrow>
          msg \<in> set [''Varint not canonically packed -- uint64'',
                     ''Varint not canonically packed -- uint32'',
                     ''Varint not canonically packed -- uint16'']
      | _ \<Rightarrow> False)"

text \<open>The bytes \<^verbatim>\<open>WriteVarInt\<close> adds to a sink.\<close>

definition VarInt_bytes :: "64 word \<Rightarrow> byte list" where
  "VarInt_bytes v = snd (WriteVarInt [] v)"

section \<open>Strings, addresses and big integers\<close>




text \<open>
  \<^verbatim>\<open>math/big\<close>: \<open>SetBytes\<close> reads a byte slice as a big-endian unsigned integer,
  \<open>Bytes\<close> is the big-endian representation of the absolute value with no leading zero
  byte (empty for 0).
\<close>

definition SetBytes :: "byte list \<Rightarrow> int" where
  "SetBytes buf = int (foldl (\<lambda>acc b. acc * 256 + unat b) 0 buf)"

function nat_Bytes :: "nat \<Rightarrow> byte list" where
  "nat_Bytes n = (if n = 0 then [] else nat_Bytes (n div 256) @ [of_nat (n mod 256)])"
  by pat_completeness auto
termination
  by (relation "measure (\<lambda>n. n)") auto

declare nat_Bytes.simps [simp del]

definition Bytes :: "int \<Rightarrow> byte list" where
  "Bytes i = nat_Bytes (nat \<bar>i\<bar>)"

definition WriteBigInt256 :: "Writer \<Rightarrow> int \<Rightarrow> error option \<times> Writer" where
  "WriteBigInt256 w i =
     (let b = replicate 32 (0 :: byte);
          numBytes = Bytes i;
          b = b @ numBytes
      in case Write w (drop (length b - 32) b) of
           ((l, err), w1) \<Rightarrow>
             if l \<noteq> 32 then (Some (Errorf ''Couldn't write 32 bytes for big.int'' []), w1)
             else (err, w1))"

text \<open>
  The loop \<^verbatim>\<open>for b[0] == 0x00 { b = b[1:] }\<close> of \<^verbatim>\<open>ReadBigInt256\<close>: indexing an empty
  slice panics.
\<close>

fun ReadBigInt256_loop :: "byte list \<Rightarrow> error + byte list" where
  "ReadBigInt256_loop [] = Inl PanicIndexOutOfRange"
| "ReadBigInt256_loop (b0 # b) = (if b0 = 0 then ReadBigInt256_loop b else Inr (b0 # b))"

definition ReadBigInt256 :: "Reader \<Rightarrow> error + (int \<times> Reader)" where
  "ReadBigInt256 r =
     (case Read r 32 of
        ((b, i, err), r1) \<Rightarrow>
          if i \<noteq> 32 then Inl (Errorf ''Couldn't read 32 bytes for big.int'' [])
          else
            (case err of
               Some e \<Rightarrow> Inl e
             | None \<Rightarrow>
                 (case ReadBigInt256_loop b of
                    Inl p \<Rightarrow> Inl p
                  | Inr b' \<Rightarrow> Inr (SetBytes b', r1))))"

section \<open>Chain hashes\<close>

text \<open>
  Package \<^verbatim>\<open>chainhash\<close> of btcd: a \<^verbatim>\<open>Hash\<close> is an array of \<open>HashSize = 32\<close> bytes,
  here the list of its bytes; a \<^verbatim>\<open>*Hash\<close> is a \<open>Hash option\<close>, \<open>None\<close> for \<^verbatim>\<open>nil\<close>.
  \<open>NewHashFromStr\<close> decodes a hexadecimal string of at most 64 digits, most significant
  byte first, into the byte-reversed hash.
\<close>

type_synonym Hash = "byte list"

definition HashSize :: nat where
  "HashSize = 32"

definition MaxHashStringSize :: nat where
  "MaxHashStringSize = HashSize * 2"

definition NewHash :: "byte list \<Rightarrow> error + Hash" where
  "NewHash newHash =
     (if length newHash \<noteq> HashSize
      then Inl (Errorf ''invalid hash length of %v, want %v'' [length newHash, HashSize])
      else Inr newHash)"

definition CloneBytes :: "Hash \<Rightarrow> byte list" where
  "CloneBytes h = h"

definition fromHexChar :: "char \<Rightarrow> byte option" where
  "fromHexChar c =
     (let n = (of_char c :: nat)
      in if 48 \<le> n \<and> n \<le> 57 then Some (of_nat (n - 48))
         else if 97 \<le> n \<and> n \<le> 102 then Some (of_nat (n - 97 + 10))
         else if 65 \<le> n \<and> n \<le> 70 then Some (of_nat (n - 65 + 10))
         else None)"

fun hex_Decode :: "string \<Rightarrow> error + byte list" where
  "hex_Decode [] = Inr []"
| "hex_Decode [c] = Inl (Errorf ''encoding/hex: odd length hex string'' [])"
| "hex_Decode (c1 # c2 # src) =
     (case fromHexChar c1 of
        None \<Rightarrow> Inl (Errorf ''encoding/hex: invalid byte: %#U'' [of_char c1])
      | Some a \<Rightarrow>
          (case fromHexChar c2 of
             None \<Rightarrow> Inl (Errorf ''encoding/hex: invalid byte: %#U'' [of_char c2])
           | Some b \<Rightarrow>
               (case hex_Decode src of
                  Inl err \<Rightarrow> Inl err
                | Inr dst \<Rightarrow> Inr ((push_bit 4 a OR b) # dst))))"

definition NewHashFromStr :: "string \<Rightarrow> error + Hash" where
  "NewHashFromStr hash =
     (if MaxHashStringSize < length hash
      then Inl (Errorf ''max hash string length is %v bytes'' [MaxHashStringSize])
      else
        let srcBytes = (if even (length hash) then hash else CHR ''0'' # hash)
        in case hex_Decode srcBytes of
             Inl err \<Rightarrow> Inl err
           | Inr bs \<Rightarrow> Inr (rev (replicate (HashSize - length bs) 0 @ bs)))"

text \<open>
  The package variable \<^verbatim>\<open>nullHash\<close> as \<^verbatim>\<open>init()\<close> leaves it: the hash of the string
  of 64 zero digits, or \<^verbatim>\<open>nil\<close> had the conversion failed.
\<close>

definition nullHash :: "Hash option" where
  "nullHash =
     (case NewHashFromStr
        ''0000000000000000000000000000000000000000000000000000000000000000'' of
        Inl _ \<Rightarrow> None
      | Inr h \<Rightarrow> Some h)"

definition WriteChainHash :: "Writer \<Rightarrow> Hash option \<Rightarrow> error option \<times> Writer" where
  "WriteChainHash w i =
     (let i = (if i = None then nullHash else i)
      in case i of
           None \<Rightarrow> (Some PanicNilDereference, w)
         | Some h \<Rightarrow>
             (case Write w (CloneBytes h) of
                ((l, err), w1) \<Rightarrow>
                  if l \<noteq> 32 then (Some (Errorf ''Couldn't write 32 bytes for chainhash'' []), w1)
                  else (err, w1)))"

definition ReadChainHash :: "Reader \<Rightarrow> error + (Hash option \<times> Reader)" where
  "ReadChainHash r =
     (case Read r 32 of
        ((b, i, err), r1) \<Rightarrow>
          if i \<noteq> 32 then Inl (Errorf ''Couldn't read 32 bytes for chainhash'' [])
          else
            (case err of
               Some e \<Rightarrow> Inl e
             | None \<Rightarrow>
                 (case NewHash b of
                    Inl e \<Rightarrow> Inl e
                  | Inr h \<Rightarrow> Inr (Some h, r1))))"

text \<open>
  \<^verbatim>\<open>WriteChainHashList\<close> drops the error each \<^verbatim>\<open>WriteChainHash\<close> returns; a panic is not
  an error value and still ends the call.
\<close>

definition is_panic :: "error option \<Rightarrow> bool" where
  "is_panic err =
     (err = Some PanicIndexOutOfRange \<or> err = Some PanicMakeslice
      \<or> err = Some PanicNilDereference)"

fun WriteChainHashList_loop :: "Writer \<Rightarrow> Hash option list \<Rightarrow> error option \<times> Writer" where
  "WriteChainHashList_loop w [] = (None, w)"
| "WriteChainHashList_loop w (h # list) =
     (case WriteChainHash w h of
        (err, w1) \<Rightarrow> if is_panic err then (err, w1) else WriteChainHashList_loop w1 list)"

definition WriteChainHashList :: "Writer \<Rightarrow> Hash option list \<Rightarrow> error option \<times> Writer" where
  "WriteChainHashList w list =
     (case WriteVarInt w (of_nat (length list)) of
        (Some err, w1) \<Rightarrow> (Some err, w1)
      | (None, w1) \<Rightarrow> WriteChainHashList_loop w1 list)"

text \<open>
  The loop \<^verbatim>\<open>for i := uint64(0); i < count; i++\<close> of \<^verbatim>\<open>ReadChainHashList\<close>, by the
  number of rounds still to run.
\<close>

fun ReadChainHashList_loop ::
  "nat \<Rightarrow> Reader \<Rightarrow> Hash option list \<Rightarrow> error + (Hash option list \<times> Reader)" where
  "ReadChainHashList_loop 0 r list = Inr (list, r)"
| "ReadChainHashList_loop (Suc n) r list =
     (case ReadChainHash r of
        Inl err \<Rightarrow> Inl err
      | Inr (h, r1) \<Rightarrow> ReadChainHashList_loop n r1 (list @ [h]))"

definition ReadChainHashList :: "Reader \<Rightarrow> error + (Hash option list \<times> Reader)" where
  "ReadChainHashList r =
     (let list = [] in
      case ReadVarInt r of
        Inl err \<Rightarrow> Inl err
      | Inr (count, r1) \<Rightarrow> ReadChainHashList_loop (unat count) r1 list)"

section \<open>Composite records\<close>














section \<open>The share-info layout as the specification words it\<close>

text \<open>
  The specification describes \<^verbatim>\<open>decodeShareInfo\<close> as a strict sequence of field decoders,
  each starting where the previous one stopped, the first failure ending the decode.
  \<open>andThen\<close> is that sequencing; \<open>decodeFixedBytes n\<close> takes exactly \<open>n\<close> raw bytes
  or fails (with the error the short count produces); \<open>le_nat\<close> and \<open>be_nat\<close> are the
  numbers a byte string denotes least and most significant byte first; \<open>decodeUintLE\<close>
  is a little-endian unsigned integer of the width of its result type.
\<close>

definition andThen ::
  "error + ('a \<times> Reader) \<Rightarrow> ('a \<Rightarrow> Reader \<Rightarrow> error + ('b \<times> Reader))
     \<Rightarrow> error + ('b \<times> Reader)" where
  "andThen m f = (case m of Inl e \<Rightarrow> Inl e | Inr (x, r) \<Rightarrow> f x r)"


fun be_nat :: "byte list \<Rightarrow> nat" where
  "be_nat [] = 0"
| "be_nat (b # bs) = unat b * 256 ^ length bs + be_nat bs"








section \<open>A concrete share\<close>






section \<open>Little-endian and big-endian bytes\<close>

lemma length_PutUint [simp]: "length (PutUint n v) = n"
  by (induction n arbitrary: v) auto

lemma Uint_PutUint: "Uint (PutUint n v) = (take_bit (8 * n) v :: 'a::len word)"
proof (induction n arbitrary: v)
  case 0
  then show ?case by simp
next
  case (Suc n)
  show ?case
    apply (simp add: Suc)
    apply (rule bit_word_eqI)
    apply (auto simp add: bit_simps)
    done
qed


lemma foldl_be_nat:
  "foldl (\<lambda>acc b. acc * 256 + unat b) a bs = a * 256 ^ length bs + be_nat bs"
  by (induction bs arbitrary: a) (auto simp add: algebra_simps)

lemma SetBytes_be_nat: "SetBytes bs = int (be_nat bs)"
  by (simp add: SetBytes_def foldl_be_nat)

section \<open>Reading and writing on buffers\<close>

lemma ReadFull_append: "length bs = n \<Longrightarrow> ReadFull (bs @ rest) n = (Inr bs, rest)"
  by (simp add: ReadFull_def)

lemma Read_exact: "length b = n \<Longrightarrow> 0 < n \<Longrightarrow> Read (b @ rest) n = ((b, n, None), rest)"
  by (auto simp add: Read_def Let_def min_def)

lemma binary_Read_PutUint:
  "8 dvd LENGTH('a) \<Longrightarrow>
     binary_Read (PutUint (LENGTH('a) div 8) v @ rest) (d :: 'a::len word) = ((None, v), rest)"
  by (simp add: binary_Read_def intDataSize_def ReadFull_append Uint_PutUint)

lemma binary_Read_byte: "binary_Read (b # rest) (d :: 8 word) = ((None, b), rest)"
  using binary_Read_PutUint[of b rest d] by simp

lemma binary_Write_eq:
  "binary_Write w (v :: 'a::len word) = (None, w @ PutUint (LENGTH('a) div 8) v)"
  by (simp add: binary_Write_def Write_def intDataSize_def)

section \<open>VarInt\<close>

lemma WriteVarInt_eq: "WriteVarInt w v = (None, w @ VarInt_bytes v)"
  by (simp add: WriteVarInt_def VarInt_bytes_def binary_Write_eq)

lemma VarInt_bytes_cases:
  "VarInt_bytes v =
     (if v < 0xfd then [ucast v]
      else if v \<le> 0xffff then 0xfd # PutUint 2 (ucast v :: 16 word)
      else if v \<le> 0xffffffff then 0xfe # PutUint 4 (ucast v :: 32 word)
      else 0xff # PutUint 8 v)"
  by (simp add: WriteVarInt_def VarInt_bytes_def binary_Write_eq)

lemma length_VarInt_bytes:
  "length (VarInt_bytes v) =
     (if v < 0xfd then 1 else if v \<le> 0xffff then 3 else if v \<le> 0xffffffff then 5 else 9)"
  by (simp add: VarInt_bytes_cases)

lemma ucast_64_16_64: "v \<le> 0xffff \<Longrightarrow> (ucast (ucast (v :: 64 word) :: 16 word) :: 64 word) = v"
  apply (simp add: unsigned_ucast_eq take_bit_eq_mask)
  apply (rule less_mask_eq)
  apply (simp add: word_le_nat_alt word_less_nat_alt)
  done

lemma ucast_64_32_64:
  "v \<le> 0xffffffff \<Longrightarrow> (ucast (ucast (v :: 64 word) :: 32 word) :: 64 word) = v"
  apply (simp add: unsigned_ucast_eq take_bit_eq_mask)
  apply (rule less_mask_eq)
  apply (simp add: word_le_nat_alt word_less_nat_alt)
  done

lemma ucast_64_8_64: "v < 0xfd \<Longrightarrow> (ucast (ucast (v :: 64 word) :: 8 word) :: 64 word) = v"
  apply (simp add: unsigned_ucast_eq take_bit_eq_mask)
  apply (rule less_mask_eq)
  apply (simp add: word_le_nat_alt word_less_nat_alt)
  done

lemma ucast_64_8_discriminant:
  "v < 0xfd \<Longrightarrow>
     (ucast (v :: 64 word) :: 8 word) \<noteq> 0xff \<and> (ucast v :: 8 word) \<noteq> 0xfe
     \<and> (ucast v :: 8 word) \<noteq> 0xfd"
  using ucast_64_8_64[of v] by auto

lemma unat_ucast_16_64: "unat (ucast (x :: 16 word) :: 64 word) = unat x"
  by (simp add: unsigned_ucast_eq take_bit_nat_eq_self
      less_trans[OF unsigned_less[of x, simplified]])

lemma unat_ucast_32_64: "unat (ucast (x :: 32 word) :: 64 word) = unat x"
  by (simp add: unsigned_ucast_eq take_bit_nat_eq_self
      less_trans[OF unsigned_less[of x, simplified]])

lemma ReadVarInt_bytes: "ReadVarInt (VarInt_bytes v @ rest) = Inr (v, rest)"
proof -
  consider "v < 0xfd" | "\<not> v < 0xfd" "v \<le> 0xffff" | "\<not> v \<le> 0xffff" "v \<le> 0xffffffff"
    | "\<not> v \<le> 0xffffffff"
    by (auto simp: word_le_nat_alt word_less_nat_alt)
  then show ?thesis
  proof cases
    case 1
    then show ?thesis
      by (simp add: VarInt_bytes_cases ReadVarInt_def binary_Read_byte ucast_64_8_64
          ucast_64_8_discriminant)
  next
    case 2
    have b: "binary_Read (PutUint 2 (ucast v :: 16 word) @ rest) (0 :: 16 word)
               = ((None, ucast v), rest)"
      using binary_Read_PutUint[of "ucast v :: 16 word" rest 0] by simp
    from 2 show ?thesis
      by (simp add: VarInt_bytes_cases ReadVarInt_def binary_Read_byte b ucast_64_16_64)
  next
    case 3
    have b: "binary_Read (PutUint 4 (ucast v :: 32 word) @ rest) (0 :: 32 word)
               = ((None, ucast v), rest)"
      using binary_Read_PutUint[of "ucast v :: 32 word" rest 0] by simp
    from 3 have c: "\<not> v < 0x10000" "\<not> v < 0xfd"
      by (simp_all add: word_le_nat_alt word_less_nat_alt)
    from 3 c show ?thesis
      by (simp add: VarInt_bytes_cases ReadVarInt_def binary_Read_byte b ucast_64_32_64)
  next
    case 4
    have b: "binary_Read (PutUint 8 v @ rest) (0 :: 64 word) = ((None, v), rest)"
      using binary_Read_PutUint[of "v :: 64 word" rest 0] by simp
    from 4 have c: "\<not> v < 0x100000000" "\<not> v \<le> 0xffff" "\<not> v < 0xfd"
      by (simp_all add: word_le_nat_alt word_less_nat_alt)
    from 4 c show ?thesis
      by (simp add: VarInt_bytes_cases ReadVarInt_def binary_Read_byte b)
  qed
qed

text \<open>
  C1. Whatever the sink \<open>w\<close> holds and whatever follows on the stream, \<^verbatim>\<open>WriteVarInt\<close>
  succeeds for every 64-bit value \<open>v\<close>, \<^verbatim>\<open>ReadVarInt\<close> decodes the bytes it added back
  to \<open>v\<close> leaving the rest of the stream unread, and the number of bytes added is
  1 for \<open>v < 0xfd\<close>, 3 up to \<open>0xffff\<close>, 5 up to \<open>0xffffffff\<close> and 9 above.
\<close>

theorem WriteVarInt_ReadVarInt_roundtrip:
  "\<exists>bs. WriteVarInt w v = (None, w @ bs)
        \<and> ReadVarInt (bs @ rest) = Inr (v, rest)
        \<and> length bs =
            (if v < 0xfd then 1 else if v \<le> 0xffff then 3
             else if v \<le> 0xffffffff then 5 else 9)"
  using WriteVarInt_eq[of w v] ReadVarInt_bytes[of v rest] length_VarInt_bytes[of v]
  by blast

text \<open>
  C2. A discriminant \<open>0xfd\<close> followed by a little-endian 16-bit payload below \<open>0xfd\<close>,
  a discriminant \<open>0xfe\<close> followed by a 32-bit payload below \<open>0x10000\<close>, and a
  discriminant \<open>0xff\<close> followed by a 64-bit payload below \<open>0x100000000\<close> each make
  \<^verbatim>\<open>ReadVarInt\<close> fail with a non-canonical-encoding error, whatever follows.
\<close>

theorem ReadVarInt_rejects_non_canonical:
  "(sv16 < 0xfd \<longrightarrow>
      (\<exists>e. ReadVarInt (0xfd # PutUint 2 (sv16 :: 16 word) @ rest) = Inl e
           \<and> NonCanonicalEncoding e))
   \<and> (sv32 < 0x10000 \<longrightarrow>
      (\<exists>e. ReadVarInt (0xfe # PutUint 4 (sv32 :: 32 word) @ rest) = Inl e
           \<and> NonCanonicalEncoding e))
   \<and> (rv < 0x100000000 \<longrightarrow>
      (\<exists>e. ReadVarInt (0xff # PutUint 8 (rv :: 64 word) @ rest) = Inl e
           \<and> NonCanonicalEncoding e))"
proof (intro conjI impI)
  assume a: "sv16 < 0xfd"
  have "binary_Read (PutUint 2 sv16 @ rest) (0 :: 16 word) = ((None, sv16), rest)"
    using binary_Read_PutUint[of sv16 rest 0] by simp
  moreover from a have "(ucast sv16 :: 64 word) < 0xfd"
    by (simp add: word_less_nat_alt unat_ucast_16_64)
  ultimately show "\<exists>e. ReadVarInt (0xfd # PutUint 2 sv16 @ rest) = Inl e
      \<and> NonCanonicalEncoding e"
    by (simp add: ReadVarInt_def binary_Read_byte NonCanonicalEncoding_def)
next
  assume a: "sv32 < 0x10000"
  have "binary_Read (PutUint 4 sv32 @ rest) (0 :: 32 word) = ((None, sv32), rest)"
    using binary_Read_PutUint[of sv32 rest 0] by simp
  moreover from a have "(ucast sv32 :: 64 word) < 0x10000"
    by (simp add: word_less_nat_alt unat_ucast_32_64)
  ultimately show "\<exists>e. ReadVarInt (0xfe # PutUint 4 sv32 @ rest) = Inl e
      \<and> NonCanonicalEncoding e"
    by (simp add: ReadVarInt_def binary_Read_byte NonCanonicalEncoding_def)
next
  assume a: "rv < 0x100000000"
  have "binary_Read (PutUint 8 rv @ rest) (0 :: 64 word) = ((None, rv), rest)"
    using binary_Read_PutUint[of rv rest 0] by simp
  with a show "\<exists>e. ReadVarInt (0xff # PutUint 8 rv @ rest) = Inl e
      \<and> NonCanonicalEncoding e"
    by (simp add: ReadVarInt_def binary_Read_byte NonCanonicalEncoding_def)
qed

theorem ReadVarInt_rejects_non_canonical_witness:
  "(\<exists>e. ReadVarInt (0xfd # PutUint 2 (0xfc :: 16 word) @ [7]) = Inl e
        \<and> NonCanonicalEncoding e)
   \<and> (\<exists>e. ReadVarInt (0xfe # PutUint 4 (0xffff :: 32 word) @ [7]) = Inl e
        \<and> NonCanonicalEncoding e)
   \<and> (\<exists>e. ReadVarInt (0xff # PutUint 8 (0xffffffff :: 64 word) @ [7]) = Inl e
        \<and> NonCanonicalEncoding e)"
  using ReadVarInt_rejects_non_canonical[of "0xfc" "[7]" "0xffff" "0xffffffff"] by simp

lemma ReadVarInt_empty: "ReadVarInt [] = Inl EOF"
  by (simp add: ReadVarInt_def binary_Read_def ReadFull_def intDataSize_def)

lemma ReadVarInt_short_0xff:
  "length p < 8 \<Longrightarrow> \<exists>e. ReadVarInt (0xff # p) = Inl e \<and> TruncatedInput e"
  by (simp add: ReadVarInt_def binary_Read_byte binary_Read_def ReadFull_def intDataSize_def
      TruncatedInput_def)

lemma ReadVarInt_short_0xfe:
  "length p < 4 \<Longrightarrow>
     ReadVarInt (0xfe # p) = Inl (Errorf ''Varint not canonically packed -- uint32'' [])"
  by (simp add: ReadVarInt_def binary_Read_byte binary_Read_def ReadFull_def intDataSize_def)

lemma ReadVarInt_short_0xfd:
  "length p < 2 \<Longrightarrow>
     ReadVarInt (0xfd # p) = Inl (Errorf ''Varint not canonically packed -- uint16'' [])"
  by (simp add: ReadVarInt_def binary_Read_byte binary_Read_def ReadFull_def intDataSize_def)

text \<open>
  C4. On a stream that holds only the discriminant \<open>0xfd\<close>, and on one that holds
  \<open>0xfe\<close> and two of the four payload bytes, \<^verbatim>\<open>ReadVarInt\<close> returns the
  "not canonically packed" error of that tier: the payload reads as 0 because the failed
  read's error is never looked at. That error is a non-canonical-encoding error and not a
  truncated-input error.
\<close>

theorem ReadVarInt_short_payload_reports_non_canonical:
  "ReadVarInt [0xfd] = Inl (Errorf ''Varint not canonically packed -- uint16'' [])
   \<and> ReadVarInt [0xfe, 0x01, 0x02] = Inl (Errorf ''Varint not canonically packed -- uint32'' [])
   \<and> \<not> TruncatedInput (Errorf ''Varint not canonically packed -- uint16'' [])
   \<and> \<not> TruncatedInput (Errorf ''Varint not canonically packed -- uint32'' [])
   \<and> NonCanonicalEncoding (Errorf ''Varint not canonically packed -- uint16'' [])
   \<and> NonCanonicalEncoding (Errorf ''Varint not canonically packed -- uint32'' [])"
  by (simp add: ReadVarInt_def binary_Read_def ReadFull_def intDataSize_def
      TruncatedInput_def NonCanonicalEncoding_def)

section \<open>Share info\<close>







section \<open>Big integers\<close>

lemma ReadBigInt256_loop_zeros:
  "ReadBigInt256_loop (replicate n 0) = Inl PanicIndexOutOfRange"
  by (induction n) auto

lemma ReadBigInt256_loop_nonzero:
  "x \<noteq> 0 \<Longrightarrow> ReadBigInt256_loop (replicate n 0 @ x # xs) = Inr (x # xs)"
  by (induction n) auto

lemma nat_Bytes_1: "nat_Bytes (Suc 0) = [1]"
  by (simp add: nat_Bytes.simps[of "Suc 0"] nat_Bytes.simps[of 0])

lemma ReadBigInt256_loop_value:
  "ReadBigInt256_loop b = Inr b' \<Longrightarrow> be_nat b' = be_nat b"
  by (induction b) (auto split: if_splits)

lemma ReadBigInt256_loop_some:
  "\<exists>x \<in> set b. x \<noteq> 0 \<Longrightarrow> \<exists>b'. ReadBigInt256_loop b = Inr b'"
  by (induction b) auto

lemma ReadBigInt256_nonzero:
  assumes "length b = 32" "\<exists>x \<in> set b. x \<noteq> 0"
  shows "ReadBigInt256 (b @ rest) = Inr (int (be_nat b), rest)"
proof -
  from assms(2) obtain b' where b': "ReadBigInt256_loop b = Inr b'"
    using ReadBigInt256_loop_some by blast
  then have "be_nat b' = be_nat b" by (rule ReadBigInt256_loop_value)
  with b' assms(1) show ?thesis
    by (simp add: ReadBigInt256_def Read_exact SetBytes_be_nat)
qed

text \<open>
  C5. On a stream of 32 zero bytes (followed by anything) \<^verbatim>\<open>ReadBigInt256\<close> does not
  return 0: the loop that strips leading zero bytes strips all 32 and then indexes the
  empty slice, which panics.
\<close>

theorem ReadBigInt256_zero_panics:
  "ReadBigInt256 (replicate 32 0 @ rest) = Inl PanicIndexOutOfRange"
  by (simp add: ReadBigInt256_def Read_exact ReadBigInt256_loop_zeros)

text \<open>
  C8. \<^verbatim>\<open>WriteBigInt256\<close> of the value 1 adds 31 zero bytes and then the byte 1 to the
  sink, and \<^verbatim>\<open>ReadBigInt256\<close> reads those 32 bytes back as 1.
\<close>

theorem BigInt256_one:
  "WriteBigInt256 w 1 = (None, w @ replicate 31 0 @ [1])
   \<and> ReadBigInt256 (replicate 31 0 @ [1]) = Inr (1, [])"
proof
  show "WriteBigInt256 w 1 = (None, w @ replicate 31 0 @ [1])"
    by (simp add: WriteBigInt256_def Write_def Bytes_def nat_Bytes_1)
  show "ReadBigInt256 (replicate 31 0 @ [1]) = Inr (1, [])"
    using Read_exact[of "replicate 31 0 @ [1]" 32 "[]"]
    by (simp add: ReadBigInt256_def ReadBigInt256_loop_nonzero SetBytes_def)
qed

lemma be_nat_append: "be_nat (xs @ ys) = be_nat xs * 256 ^ length ys + be_nat ys"
  by (induction xs) (auto simp add: algebra_simps power_add)

lemma be_nat_replicate_zero: "be_nat (replicate k 0 @ bs) = be_nat bs"
  by (induction k) auto

lemma be_nat_less: "be_nat bs < 256 ^ length bs"
proof (induction bs)
  case Nil
  then show ?case by simp
next
  case (Cons b bs)
  have "unat b < 256" using unsigned_less[of b] by simp
  then have "unat b \<le> 255" by simp
  then have m: "unat b * 256 ^ length bs \<le> 255 * 256 ^ length bs"
    by (rule mult_le_mono1)
  have "unat b * 256 ^ length bs + be_nat bs < 255 * 256 ^ length bs + 256 ^ length bs"
    using m Cons.IH by (rule add_le_less_mono)
  then show ?case by simp
qed

lemma be_nat_drop: "be_nat (drop k bs) = be_nat bs mod 256 ^ (length bs - k)"
proof -
  have "be_nat bs = be_nat (take k bs) * 256 ^ length (drop k bs) + be_nat (drop k bs)"
    using be_nat_append[of "take k bs" "drop k bs"] by simp
  moreover have "be_nat (drop k bs) < 256 ^ length (drop k bs)" by (rule be_nat_less)
  ultimately show ?thesis by simp
qed

lemma unat_of_nat_byte: "unat (of_nat (n mod 256) :: byte) = n mod 256"
  by (simp add: unat_of_nat)

lemma be_nat_nat_Bytes: "be_nat (nat_Bytes n) = n"
proof (induction n rule: nat_Bytes.induct)
  case (1 n)
  show ?case
  proof (cases "n = 0")
    case True
    then show ?thesis by (simp add: nat_Bytes.simps[of 0])
  next
    case False
    with 1 have "be_nat (nat_Bytes (n div 256)) = n div 256" by simp
    with False show ?thesis
      by (simp add: nat_Bytes.simps[of n] be_nat_append unat_of_nat_byte)
  qed
qed

text \<open>
  C10. For every non-negative \<open>v\<close>, also one of more than 256 bits, \<^verbatim>\<open>WriteBigInt256\<close>
  reports no error and adds exactly 32 bytes to the sink, and those bytes read as a
  big-endian number are \<open>v mod 2^256\<close>: the high bytes of a wider value are dropped.
\<close>

theorem WriteBigInt256_writes_low_256_bits:
  assumes "0 \<le> v"
  shows "\<exists>bs. WriteBigInt256 w v = (None, w @ bs) \<and> length bs = 32
            \<and> SetBytes bs = v mod 2 ^ 256"
proof -
  define nb where "nb = nat_Bytes (nat v)"
  define bs where "bs = drop (length nb) (replicate 32 0 @ nb)"
  have nb: "be_nat nb = nat v" by (simp add: nb_def be_nat_nat_Bytes)
  have w: "WriteBigInt256 w v = (None, w @ bs)"
    using assms by (simp add: WriteBigInt256_def Write_def Bytes_def nb_def bs_def Let_def)
  have len: "length bs = 32" by (simp add: bs_def)
  have "be_nat bs
          = be_nat (replicate 32 0 @ nb) mod 256 ^ (length (replicate 32 0 @ nb) - length nb)"
    unfolding bs_def by (rule be_nat_drop)
  then have "be_nat bs = nat v mod 2 ^ 256"
    by (simp add: be_nat_replicate_zero nb)
  then have "SetBytes bs = v mod 2 ^ 256"
    using assms by (simp add: SetBytes_be_nat nat_mod_distrib zmod_int)
  with w len show ?thesis by blast
qed

theorem WriteBigInt256_writes_low_256_bits_witness:
  "(0::int) \<le> 2 ^ 256 + 5 \<and>
   (\<exists>bs. WriteBigInt256 [9] (2 ^ 256 + 5) = (None, [9] @ bs) \<and> length bs = 32
        \<and> SetBytes bs = 5)"
proof -
  have h: "(0::int) \<le> 2 ^ 256 + 5" by simp
  show ?thesis using h WriteBigInt256_writes_low_256_bits[OF h, of "[9]"] by simp
qed

section \<open>Chain hashes and lists of them\<close>

lemma nullHash_zero: "nullHash = Some (replicate 32 0)"
  by code_simp

text \<open>
  C9. Called with a \<^verbatim>\<open>nil\<close> hash, \<^verbatim>\<open>WriteChainHash\<close> reports no error and adds exactly
  32 zero bytes to the sink.
\<close>

theorem WriteChainHash_nil_writes_null_hash:
  "WriteChainHash w None = (None, w @ replicate 32 0)"
  by (simp add: WriteChainHash_def nullHash_zero Write_def CloneBytes_def)

lemma WriteChainHash_Some:
  "length h = 32 \<Longrightarrow> WriteChainHash w (Some h) = (None, w @ h)"
  by (simp add: WriteChainHash_def Write_def CloneBytes_def)

lemma WriteChainHashList_loop_eq:
  "list_all (\<lambda>h. length h = 32) hs \<Longrightarrow>
     WriteChainHashList_loop w (map Some hs) = (None, w @ concat hs)"
  by (induction hs arbitrary: w) (auto simp add: WriteChainHash_Some is_panic_def)

lemma ReadChainHash_exact:
  "length h = 32 \<Longrightarrow> ReadChainHash (h @ rest) = Inr (Some h, rest)"
  by (simp add: ReadChainHash_def Read_exact NewHash_def HashSize_def)

lemma ReadChainHashList_loop_eq:
  "list_all (\<lambda>h. length h = 32) hs \<Longrightarrow>
     ReadChainHashList_loop (length hs) (concat hs @ rest) acc = Inr (acc @ map Some hs, rest)"
  by (induction hs arbitrary: acc) (auto simp add: ReadChainHash_exact)

lemma unat_of_nat_length: "n < 2 ^ 63 \<Longrightarrow> unat (of_nat n :: 64 word) = n"
  by (simp add: unat_of_nat take_bit_nat_eq_self)

lemma VarInt_bytes_0: "VarInt_bytes 0 = [0]"
  by (simp add: VarInt_bytes_cases)

text \<open>
  C7. For every list of (non-\<^verbatim>\<open>nil\<close>) 32-byte hashes, of any length a Go slice can
  have, \<^verbatim>\<open>ReadChainHashList\<close> decodes what \<^verbatim>\<open>WriteChainHashList\<close> wrote back to the same
  hashes in the same order, leaving what follows unread; and the empty list is written as
  the VarInt of 0 alone, the single byte 0.
\<close>

theorem ChainHashList_roundtrip:
  "(list_all (\<lambda>h. length h = HashSize) hs \<and> length hs < 2 ^ 63 \<longrightarrow>
      (\<exists>bs. WriteChainHashList w (map Some hs) = (None, w @ bs)
           \<and> ReadChainHashList (bs @ rest) = Inr (map Some hs, rest)))
   \<and> WriteChainHashList w [] = (None, w @ VarInt_bytes 0)
   \<and> VarInt_bytes 0 = [0]"
proof (intro conjI impI)
  assume a: "list_all (\<lambda>h. length h = HashSize) hs \<and> length hs < 2 ^ 63"
  then have hs: "list_all (\<lambda>h. length h = 32) hs" and n: "length hs < 2 ^ 63"
    by (simp_all add: HashSize_def)
  let ?bs = "VarInt_bytes (of_nat (length hs)) @ concat hs"
  have "WriteChainHashList w (map Some hs) = (None, w @ ?bs)"
    by (simp add: WriteChainHashList_def WriteVarInt_eq WriteChainHashList_loop_eq[OF hs])
  moreover have "ReadChainHashList (?bs @ rest) = Inr (map Some hs, rest)"
    using ReadChainHashList_loop_eq[OF hs, of rest "[]"]
    by (simp add: ReadChainHashList_def ReadVarInt_bytes unat_of_nat_length[OF n])
  ultimately show "\<exists>bs. WriteChainHashList w (map Some hs) = (None, w @ bs)
           \<and> ReadChainHashList (bs @ rest) = Inr (map Some hs, rest)"
    by blast
next
  show "WriteChainHashList w [] = (None, w @ VarInt_bytes 0)"
    by (simp add: WriteChainHashList_def WriteVarInt_eq)
next
  show "VarInt_bytes 0 = [0]" by (rule VarInt_bytes_0)
qed

theorem ChainHashList_roundtrip_witness:
  "\<exists>bs. WriteChainHashList [] (map Some [replicate 32 1, replicate 32 2]) = (None, [] @ bs)
       \<and> ReadChainHashList (bs @ [5]) = Inr (map Some [replicate 32 1, replicate 32 2], [5])"
  using ChainHashList_roundtrip[of "[replicate 32 1, replicate 32 2]" "[]" "[5]"]
  by (simp add: HashSize_def)

section \<open>Fixed-width fields\<close>














lemma andThen_Inr [simp]: "andThen (Inr (x, r)) f = f x r"
  by (simp add: andThen_def)

lemma andThen_Inl [simp]: "andThen (Inl e) f = Inl e"
  by (simp add: andThen_def)





















end
